theory Spec2Isabelle
  imports Complex_Main
begin

section \<open>Pace timer: shared clock state, lock and outcomes\<close>

text \<open>
  The module-level globals of \<^verbatim>\<open>pace_timer.py\<close> form one record. A float is
  a real: the arithmetic does not round. What does fail is written out: \<^verbatim>\<open>float(n)\<close>
  raises OverflowError for an integer beyond the doubles. \<^verbatim>\<open>state_lock\<close> is a
  \<^verbatim>\<open>threading.Lock()\<close>, which is not re-entrant: the field \<open>lock_held\<close> records
  whether it is taken, and acquiring it while it is taken never returns.
\<close>

record state =
  TOTAL_SECONDS :: int
  NUM_ENDS :: int
  LOGO_URL :: string
  MESSAGE_TEXT :: string
  start_epoch :: real
  manual_elapsed_offset :: real
  paused :: bool
  pause_epoch :: "real option"
  lock_held :: bool

datatype exn = ValueError string | TypeError string | OverflowError string | IndexError string

text \<open>
  What a call does: it returns a value, raises an exception, or waits for ever on
  \<^verbatim>\<open>state_lock\<close>.
\<close>

datatype 'a outcome = Return 'a | Raise exn | Blocked

type_synonym 'a prog = "state \<Rightarrow> 'a outcome \<times> state"

text \<open>Sequencing of two calls: the second runs only when the first returns.\<close>

definition seq :: "'a prog \<Rightarrow> ('a \<Rightarrow> 'b prog) \<Rightarrow> 'b prog" where
  "seq m f s =
     (case m s of
        (Return x, s') \<Rightarrow> f x s'
      | (Raise e, s') \<Rightarrow> (Raise e, s')
      | (Blocked, s') \<Rightarrow> (Blocked, s'))"

text \<open>\<^verbatim>\<open>try: ... except Exception as e: ...\<close>\<close>

definition try_except :: "'a prog \<Rightarrow> (exn \<Rightarrow> 'a prog) \<Rightarrow> 'a prog" where
  "try_except m h s =
     (case m s of
        (Raise e, s') \<Rightarrow> h e s'
      | (Return x, s') \<Rightarrow> (Return x, s')
      | (Blocked, s') \<Rightarrow> (Blocked, s'))"

text \<open>
  \<^verbatim>\<open>with state_lock: body\<close>. The lock is released when the body returns or raises;
  a body that waits for ever keeps it.
\<close>

definition with_state_lock :: "'a prog \<Rightarrow> 'a prog" where
  "with_state_lock body s =
     (if lock_held s then (Blocked, s)
      else (case body (s\<lparr>lock_held := True\<rparr>) of
              (Blocked, s') \<Rightarrow> (Blocked, s')
            | (Return x, s') \<Rightarrow> (Return x, s'\<lparr>lock_held := False\<rparr>)
            | (Raise e, s') \<Rightarrow> (Raise e, s'\<lparr>lock_held := False\<rparr>)))"

text \<open>\<^verbatim>\<open>int(x)\<close> on a float truncates toward zero.\<close>

definition int_of_float :: "real \<Rightarrow> int" where
  "int_of_float x = (if x < 0 then \<lceil>x\<rceil> else \<lfloor>x\<rfloor>)"

text \<open>
  \<^verbatim>\<open>float(n)\<close> on an integer, also where Python converts the integer operand of
  a mixed subtraction. The largest double is \<open>2^1024 - 2^971\<close>; an integer of magnitude
  \<open>2^1024 - 2^970\<close> or more rounds beyond it, and the conversion raises.
\<close>

definition float_limit :: int where
  "float_limit = 2 ^ 1024 - 2 ^ 970"

definition float_of_int :: "int \<Rightarrow> exn + real" where
  "float_of_int n =
     (if \<bar>n\<bar> < float_limit then Inr (of_int n)
      else Inl (OverflowError ''int too large to convert to float''))"

section \<open>Clock core\<close>

text \<open>
  Every reading of \<^verbatim>\<open>time.time()\<close> is an argument \<open>now\<close> of the function that
  takes it.
\<close>

definition total_seconds :: "int prog" where
  "total_seconds = with_state_lock (\<lambda>s. (Return (TOTAL_SECONDS s), s))"

definition num_ends :: "int prog" where
  "num_ends = with_state_lock (\<lambda>s. (Return (NUM_ENDS s), s))"

text \<open>
  In \<^verbatim>\<open>now_elapsed\<close> the paused branch subtracts from \<^verbatim>\<open>_pause_epoch\<close>, which
  is \<^verbatim>\<open>None\<close> until the first pause: the subtraction then raises TypeError.
\<close>

definition now_elapsed :: "real \<Rightarrow> real prog" where
  "now_elapsed now = with_state_lock (\<lambda>s.
     if paused s then
       (case pause_epoch s of
          None \<Rightarrow> (Raise (TypeError ''unsupported operand type(s) for -''), s)
        | Some p \<Rightarrow> (Return (max 0 ((p - start_epoch s) + manual_elapsed_offset s)), s))
     else (Return (max 0 ((now - start_epoch s) + manual_elapsed_offset s)), s))"

definition set_elapsed :: "real \<Rightarrow> real \<Rightarrow> unit prog" where
  "set_elapsed now seconds = with_state_lock (\<lambda>s.
     (Return (), s\<lparr>start_epoch := now, manual_elapsed_offset := seconds\<rparr>))"

definition reset_timer :: "real \<Rightarrow> unit prog" where
  "reset_timer now = with_state_lock (\<lambda>s.
     (Return (), s\<lparr>start_epoch := now, manual_elapsed_offset := 0\<rparr>))"

definition pause_timer :: "real \<Rightarrow> unit prog" where
  "pause_timer now = with_state_lock (\<lambda>s.
     if \<not> paused s then (Return (), s\<lparr>paused := True, pause_epoch := Some now\<rparr>)
     else (Return (), s))"

definition resume_timer :: "real \<Rightarrow> unit prog" where
  "resume_timer now = with_state_lock (\<lambda>s.
     if paused s then
       (case pause_epoch s of
          None \<Rightarrow> (Raise (TypeError ''unsupported operand type(s) for -''), s)
        | Some p \<Rightarrow>
            (Return (), s\<lparr>start_epoch := start_epoch s + (now - p),
                           paused := False, pause_epoch := None\<rparr>))
     else (Return (), s))"

text \<open>
  The states the program can be in between two calls: the lock is free, and
  \<^verbatim>\<open>_pause_epoch\<close> is set exactly while \<^verbatim>\<open>_paused\<close> is.
\<close>

definition idle :: "state \<Rightarrow> bool" where
  "idle s = (\<not> lock_held s \<and> (paused s = (pause_epoch s \<noteq> None)))"

text \<open>The state the module builds when it is loaded at time \<open>t0\<close>.\<close>

definition initial_state :: "int \<Rightarrow> int \<Rightarrow> string \<Rightarrow> string \<Rightarrow> real \<Rightarrow> state" where
  "initial_state tot n logo msg t0 =
     \<lparr>TOTAL_SECONDS = tot, NUM_ENDS = n, LOGO_URL = logo, MESSAGE_TEXT = msg,
      start_epoch = t0, manual_elapsed_offset = 0, paused = False, pause_epoch = None,
      lock_held = False\<rparr>"

section \<open>Strings, numbers and the time-string parser\<close>

text \<open>
  A \<open>string\<close> is read as a sequence of code points below 256. \<^verbatim>\<open>str.strip()\<close>
  removes the white space of \<^verbatim>\<open>str.isspace\<close> from both ends; \<^verbatim>\<open>str.split(":")\<close>
  cuts at every colon and keeps empty parts.
\<close>

definition is_space :: "char \<Rightarrow> bool" where
  "is_space c = (c \<in> set [CHR 0x09, CHR 0x0A, CHR 0x0B, CHR 0x0C, CHR 0x0D,
                            CHR 0x1C, CHR 0x1D, CHR 0x1E, CHR 0x1F, CHR 0x20,
                            CHR 0x85, CHR 0xA0])"

definition strip :: "string \<Rightarrow> string" where
  "strip s = rev (dropWhile is_space (rev (dropWhile is_space s)))"

fun split_on :: "char \<Rightarrow> string \<Rightarrow> string list" where
  "split_on c [] = [[]]"
| "split_on c (x # xs) =
     (if x = c then [] # split_on c xs
      else (case split_on c xs of
              p # ps \<Rightarrow> (x # p) # ps
            | [] \<Rightarrow> [[x]]))"

text \<open>
  The built-in readers \<^verbatim>\<open>int(str)\<close> and \<^verbatim>\<open>float(str)\<close> are not code of this
  program: every function that calls them takes them as the arguments \<open>py_int\<close> and
  \<open>py_float\<close>, which return the number or the exception raised. A float read from a
  string can be infinite or not a number.
\<close>

datatype pyfloat = Fin real | PosInf | NegInf | NaN

type_synonym int_reader = "string \<Rightarrow> exn + int"
type_synonym float_reader = "string \<Rightarrow> exn + pyfloat"

text \<open>\<^verbatim>\<open>int(x)\<close> on a float that may be infinite or not a number.\<close>

definition int_of_pyfloat :: "pyfloat \<Rightarrow> exn + int" where
  "int_of_pyfloat x =
     (case x of
        Fin r \<Rightarrow> Inr (int_of_float r)
      | NaN \<Rightarrow> Inl (ValueError ''cannot convert float NaN to integer'')
      | PosInf \<Rightarrow> Inl (OverflowError ''cannot convert float infinity to integer'')
      | NegInf \<Rightarrow> Inl (OverflowError ''cannot convert float infinity to integer''))"

text \<open>
  Comparison of floats, and the built-in two-argument \<^verbatim>\<open>min\<close> and \<^verbatim>\<open>max\<close>:
  they start from the first argument and take the second only when it is strictly
  smaller (larger); every comparison with NaN is false.
\<close>

fun float_lt :: "pyfloat \<Rightarrow> pyfloat \<Rightarrow> bool" where
  "float_lt NaN _ = False"
| "float_lt _ NaN = False"
| "float_lt (Fin a) (Fin b) = (a < b)"
| "float_lt NegInf NegInf = False"
| "float_lt NegInf _ = True"
| "float_lt _ NegInf = False"
| "float_lt PosInf _ = False"
| "float_lt _ PosInf = True"

definition py_min :: "pyfloat \<Rightarrow> pyfloat \<Rightarrow> pyfloat" where
  "py_min a b = (if float_lt b a then b else a)"

definition py_max :: "pyfloat \<Rightarrow> pyfloat \<Rightarrow> pyfloat" where
  "py_max a b = (if float_lt a b then b else a)"

text \<open>
  \<^verbatim>\<open>max(0.0, min(rem, float(tot)))\<close> in \<^verbatim>\<open>set_remaining\<close>, by the cases of
  \<open>rem\<close>, with \<open>ftot\<close> the value of \<^verbatim>\<open>float(tot)\<close>; the result is always finite
  (lemma \<open>clamp_remaining_py\<close> below).
\<close>

definition clamp_remaining :: "pyfloat \<Rightarrow> real \<Rightarrow> real" where
  "clamp_remaining rem ftot =
     (case rem of
        Fin r \<Rightarrow> max 0 (min r ftot)
      | PosInf \<Rightarrow> max 0 ftot
      | NegInf \<Rightarrow> 0
      | NaN \<Rightarrow> 0)"

definition sum_bind :: "exn + 'a \<Rightarrow> ('a \<Rightarrow> exn + 'b) \<Rightarrow> exn + 'b" where
  "sum_bind r f = (case r of Inl e \<Rightarrow> Inl e | Inr x \<Rightarrow> f x)"

definition parse_hms_to_seconds :: "int_reader \<Rightarrow> string \<Rightarrow> exn + int" where
  "parse_hms_to_seconds py_int s =
     (case split_on CHR '':'' (strip s) of
        [p] \<Rightarrow> py_int p
      | [m, sec] \<Rightarrow>
          sum_bind (py_int m) (\<lambda>mi. sum_bind (py_int sec) (\<lambda>si. Inr (mi * 60 + si)))
      | [h, m, sec] \<Rightarrow>
          sum_bind (py_int h) (\<lambda>hi. sum_bind (py_int m) (\<lambda>mi.
            sum_bind (py_int sec) (\<lambda>si. Inr (hi * 3600 + mi * 60 + si))))
      | _ \<Rightarrow> Inl (ValueError ''Invalid time format''))"

section \<open>HTTP handlers\<close>

text \<open>
  A response is the JSON object given to \<^verbatim>\<open>jsonify\<close> and the status code; the
  query string is the map \<^verbatim>\<open>request.args\<close>.
\<close>

datatype json = JBool bool | JInt int | JStr string

type_synonym response = "(string \<times> json) list \<times> nat"

definition ret :: "'a \<Rightarrow> 'a prog" where
  "ret x s = (Return x, s)"

definition lift :: "exn + 'a \<Rightarrow> 'a prog" where
  "lift r s = (case r of Inl e \<Rightarrow> (Raise e, s) | Inr x \<Rightarrow> (Return x, s))"

fun exn_text :: "exn \<Rightarrow> string" where
  "exn_text (ValueError m) = m"
| "exn_text (TypeError m) = m"
| "exn_text (OverflowError m) = m"
| "exn_text (IndexError m) = m"

definition bad_request :: "string \<Rightarrow> response" where
  "bad_request msg = ([(''ok'', JBool False), (''error'', JStr msg)], 400)"

definition reset :: "real \<Rightarrow> response prog" where
  "reset now = seq (reset_timer now) (\<lambda>_.
     ret ([(''ok'', JBool True), (''message'', JStr ''timer reset'')], 200))"

definition pause :: "real \<Rightarrow> response prog" where
  "pause now = seq (pause_timer now) (\<lambda>_.
     ret ([(''ok'', JBool True), (''message'', JStr ''timer paused'')], 200))"

definition resume :: "real \<Rightarrow> response prog" where
  "resume now = seq (resume_timer now) (\<lambda>_.
     ret ([(''ok'', JBool True), (''message'', JStr ''timer resumed'')], 200))"

definition set_remaining ::
  "int_reader \<Rightarrow> float_reader \<Rightarrow> (string \<rightharpoonup> string) \<Rightarrow> real \<Rightarrow> response prog" where
  "set_remaining py_int py_float args now =
     seq total_seconds (\<lambda>tot.
       case (args ''seconds'', args ''time'') of
         (None, None) \<Rightarrow> ret (bad_request ''Provide seconds or time query param'')
       | (seconds_param, time_param) \<Rightarrow>
           try_except
             (seq (lift (case seconds_param of
                           Some sp \<Rightarrow> py_float sp
                         | None \<Rightarrow>
                             (case time_param of
                                Some tp \<Rightarrow>
                                  sum_bind (parse_hms_to_seconds py_int tp)
                                    (\<lambda>n. sum_bind (float_of_int n) (\<lambda>r. Inr (Fin r)))
                              | None \<Rightarrow> Inl (TypeError ''NoneType''))))
                (\<lambda>rem0. seq (lift (float_of_int tot)) (\<lambda>ftot.
                   let rem = clamp_remaining rem0 ftot;
                       elapsed_to_set = ftot - rem
                   in seq (set_elapsed now elapsed_to_set) (\<lambda>_.
                        ret ([(''ok'', JBool True), (''message'', JStr ''remaining set''),
                              (''remaining_seconds'', JInt (int_of_float rem))], 200)))))
             (\<lambda>e. ret (bad_request (exn_text e))))"

text \<open>
  \<^verbatim>\<open>set_total\<close> reads the clock twice: \<open>t1\<close> in \<^verbatim>\<open>now_elapsed()\<close> and \<open>t2\<close> in
  \<^verbatim>\<open>set_elapsed\<close>, which it calls inside its own \<^verbatim>\<open>with state_lock\<close> block.
\<close>

definition set_total ::
  "int_reader \<Rightarrow> float_reader \<Rightarrow> (string \<rightharpoonup> string) \<Rightarrow> real \<Rightarrow> real \<Rightarrow> response prog" where
  "set_total py_int py_float args t1 t2 =
     (case (args ''seconds'', args ''time'') of
        (None, None) \<Rightarrow> ret (bad_request ''Provide seconds or time query param'')
      | (seconds_param, time_param) \<Rightarrow>
          try_except
            (seq (lift (case seconds_param of
                          Some sp \<Rightarrow> sum_bind (py_float sp) int_of_pyfloat
                        | None \<Rightarrow>
                            (case time_param of
                               Some tp \<Rightarrow> parse_hms_to_seconds py_int tp
                             | None \<Rightarrow> Inl (TypeError ''NoneType''))))
               (\<lambda>new_total.
                  if new_total \<le> 0 then ret (bad_request ''total must be > 0'')
                  else seq (now_elapsed t1) (\<lambda>el.
                    seq (with_state_lock (\<lambda>s.
                           let s1 = s\<lparr>TOTAL_SECONDS := new_total\<rparr>
                           in if el > of_int (TOTAL_SECONDS s1)
                              then set_elapsed t2 (of_int (TOTAL_SECONDS s1)) s1
                              else (Return (), s1)))
                      (\<lambda>_. seq total_seconds (\<lambda>tot.
                         ret ([(''ok'', JBool True), (''total_seconds'', JInt tot)], 200))))))
            (\<lambda>e. ret (bad_request (exn_text e))))"

definition set_ends :: "int_reader \<Rightarrow> (string \<rightharpoonup> string) \<Rightarrow> response prog" where
  "set_ends py_int args =
     (case args ''count'' of
        None \<Rightarrow> ret (bad_request ''Provide count=N'')
      | Some count \<Rightarrow>
          if count = [] then ret (bad_request ''Provide count=N'')
          else try_except
            (seq (lift (py_int count)) (\<lambda>n.
               if n < 1 then ret (bad_request ''count must be >= 1'')
               else seq (with_state_lock (\<lambda>s. (Return (), s\<lparr>NUM_ENDS := n\<rparr>)))
                      (\<lambda>_. seq num_ends (\<lambda>k.
                         ret ([(''ok'', JBool True), (''num_ends'', JInt k)], 200)))))
            (\<lambda>e. ret (bad_request (exn_text e))))"

definition add_time :: "real \<Rightarrow> real \<Rightarrow> response prog" where
  "add_time t1 t2 =
     try_except
       (seq (now_elapsed t1) (\<lambda>current_elapsed.
          let new_elapsed = current_elapsed + 60
          in seq (set_elapsed t2 new_elapsed) (\<lambda>_.
               ret ([(''ok'', JBool True), (''message'', JStr ''Added 1 minute''),
                     (''elapsed_seconds'', JInt (int_of_float new_elapsed))], 200))))
       (\<lambda>e. ret (bad_request (exn_text e)))"

definition subtract_time :: "real \<Rightarrow> real \<Rightarrow> response prog" where
  "subtract_time t1 t2 =
     try_except
       (seq (now_elapsed t1) (\<lambda>current_elapsed.
          let new_elapsed = max 0 (current_elapsed - 60)
          in seq (set_elapsed t2 new_elapsed) (\<lambda>_.
               ret ([(''ok'', JBool True), (''message'', JStr ''Subtracted 1 minute''),
                     (''elapsed_seconds'', JInt (int_of_float new_elapsed))], 200))))
       (\<lambda>e. ret (bad_request (exn_text e)))"

text \<open>
  The space key in the render loop of \<^verbatim>\<open>main\<close>: it takes \<^verbatim>\<open>state_lock\<close> and
  calls \<^verbatim>\<open>resume_timer\<close> or \<^verbatim>\<open>pause_timer\<close> inside the block.
\<close>

definition space_key :: "real \<Rightarrow> unit prog" where
  "space_key now = with_state_lock (\<lambda>s.
     if paused s then resume_timer now s else pause_timer now s)"

section \<open>Progress of the render loop\<close>

text \<open>
  A \<^verbatim>\<open>pygame.Rect\<close> and the screen measures that \<^verbatim>\<open>main\<close> computes once and
  \<^verbatim>\<open>recompute_boxes\<close> reads.
\<close>

record rect =
  rect_left :: int
  rect_top :: int
  rect_width :: int
  rect_height :: int

record layout =
  grid_left :: int
  grid_top :: int
  grid_bottom :: int
  grid_width :: int
  grid_h :: int
  box_margin :: int

definition recompute_boxes :: "layout \<Rightarrow> int \<Rightarrow> rect list" where
  "recompute_boxes L N0 =
     (let N = max 1 N0;
          box_w = int_of_float (of_int (grid_width L - (N + 1) * box_margin L) / of_int N);
          box_h = min (grid_h L) (grid_bottom L - grid_top L);
          box_y = grid_top L + (grid_bottom L - grid_top L - box_h) div 2
      in map (\<lambda>i. \<lparr>rect_left = grid_left L + box_margin L + i * (box_w + box_margin L),
                     rect_top = box_y, rect_width = box_w, rect_height = box_h\<rparr>)
             [0..N - 1])"


text \<open>
  The block \<^verbatim>\<open># Boxes row & fill\<close> and the pointer index. \<open>fill_ws\<close> holds the
  \<^verbatim>\<open>fill_w\<close> of every box, in the order of \<^verbatim>\<open>enumerate(box_rects)\<close>; a box is
  painted when its \<^verbatim>\<open>fill_w\<close> is positive. The block starts with
  \<^verbatim>\<open>float(total_seconds())\<close>: when that raises, nothing of it is computed.
\<close>

record progress =
  frac_val :: real
  end_units :: real
  full_boxes :: int
  partial_val :: real
  fill_ws :: "int list"
  current_idx :: int

definition fill_w :: "int \<Rightarrow> real \<Rightarrow> int \<Rightarrow> rect \<Rightarrow> int" where
  "fill_w fb part idx r =
     (if idx < fb then rect_width r - 6
      else if idx = fb then int_of_float (of_int (rect_width r - 6) * part)
      else 0)"

definition frame_progress :: "real \<Rightarrow> int \<Rightarrow> rect list \<Rightarrow> exn + progress" where
  "frame_progress el total_s box_rects =
     sum_bind (float_of_int total_s) (\<lambda>ftot.
       let tot = (if ftot = 0 then 1 else ftot);
           fr = max 0 (min 1 (el / tot));
           N = int (length box_rects);
           eu = fr * of_int N;
           fb = int_of_float eu;
           part = eu - of_int fb
       in Inr \<lparr>frac_val = fr, end_units = eu, full_boxes = fb, partial_val = part,
               fill_ws = map (\<lambda>(idx, r). fill_w fb part idx r) (zip [0..N - 1] box_rects),
               current_idx = min (N - 1) (max 0 fb)\<rparr>)"

text \<open>
  \<^verbatim>\<open>box_rects[i]\<close>: an index from \<open>-len\<close> up to \<open>-1\<close> is taken from the end of
  the list, and one outside \<open>-len .. len-1\<close> raises IndexError.
\<close>

definition py_index :: "'a list \<Rightarrow> int \<Rightarrow> exn + 'a" where
  "py_index xs i =
     (if 0 \<le> i \<and> i < int (length xs) then Inr (xs ! nat i)
      else if i < 0 \<and> - int (length xs) \<le> i then Inr (xs ! nat (int (length xs) + i))
      else Inl (IndexError ''list index out of range''))"

definition current_rect :: "rect list \<Rightarrow> progress \<Rightarrow> exn + rect" where
  "current_rect box_rects p = py_index box_rects (current_idx p)"

section \<open>Runs of the program\<close>

text \<open>
  The states reached from the state at load time by calls that return: the handlers of
  the API and the clock functions the render loop calls directly. The clock readings
  are arbitrary.
\<close>

inductive reachable :: "int_reader \<Rightarrow> float_reader \<Rightarrow> state \<Rightarrow> bool"
  for py_int :: int_reader and py_float :: float_reader where
  r_init: "reachable py_int py_float (initial_state tot n logo msg t0)"
| r_reset: "reachable py_int py_float s \<Longrightarrow> reset now s = (Return r, s')
     \<Longrightarrow> reachable py_int py_float s'"
| r_reset_timer: "reachable py_int py_float s \<Longrightarrow> reset_timer now s = (Return u, s')
     \<Longrightarrow> reachable py_int py_float s'"
| r_pause: "reachable py_int py_float s \<Longrightarrow> pause now s = (Return r, s')
     \<Longrightarrow> reachable py_int py_float s'"
| r_resume: "reachable py_int py_float s \<Longrightarrow> resume now s = (Return r, s')
     \<Longrightarrow> reachable py_int py_float s'"
| r_set_elapsed: "reachable py_int py_float s \<Longrightarrow> set_elapsed now x s = (Return u, s')
     \<Longrightarrow> reachable py_int py_float s'"
| r_set_remaining: "reachable py_int py_float s
     \<Longrightarrow> set_remaining py_int py_float args now s = (Return r, s')
     \<Longrightarrow> reachable py_int py_float s'"
| r_set_total: "reachable py_int py_float s
     \<Longrightarrow> set_total py_int py_float args t1 t2 s = (Return r, s')
     \<Longrightarrow> reachable py_int py_float s'"
| r_set_ends: "reachable py_int py_float s \<Longrightarrow> set_ends py_int args s = (Return r, s')
     \<Longrightarrow> reachable py_int py_float s'"
| r_add_time: "reachable py_int py_float s \<Longrightarrow> add_time t1 t2 s = (Return r, s')
     \<Longrightarrow> reachable py_int py_float s'"
| r_subtract_time: "reachable py_int py_float s \<Longrightarrow> subtract_time t1 t2 s = (Return r, s')
     \<Longrightarrow> reachable py_int py_float s'"

section \<open>Invalid requests\<close>

text \<open>
  A time string is malformed when it does not have one, two or three parts, or when
  \<^verbatim>\<open>int\<close> refuses one of the parts.
\<close>

definition malformed_time :: "int_reader \<Rightarrow> string \<Rightarrow> bool" where
  "malformed_time py_int tp =
     (let parts = split_on CHR '':'' (strip tp)
      in \<not> (length parts = 1 \<or> length parts = 2 \<or> length parts = 3)
         \<or> list_ex (\<lambda>p. isl (py_int p)) parts)"

text \<open>
  The argument parsing at the head of \<^verbatim>\<open>set_total\<close> and of \<^verbatim>\<open>set_remaining\<close>,
  as a value: \<^verbatim>\<open>seconds\<close> wins over \<^verbatim>\<open>time\<close>.
\<close>

definition requested_total ::
  "int_reader \<Rightarrow> float_reader \<Rightarrow> (string \<rightharpoonup> string) \<Rightarrow> exn + int" where
  "requested_total py_int py_float args =
     (case args ''seconds'' of
        Some sp \<Rightarrow> sum_bind (py_float sp) int_of_pyfloat
      | None \<Rightarrow>
          (case args ''time'' of
             Some tp \<Rightarrow> parse_hms_to_seconds py_int tp
           | None \<Rightarrow> Inl (TypeError ''NoneType'')))"

definition requested_remaining ::
  "int_reader \<Rightarrow> float_reader \<Rightarrow> (string \<rightharpoonup> string) \<Rightarrow> exn + pyfloat" where
  "requested_remaining py_int py_float args =
     (case args ''seconds'' of
        Some sp \<Rightarrow> py_float sp
      | None \<Rightarrow>
          (case args ''time'' of
             Some tp \<Rightarrow>
               sum_bind (parse_hms_to_seconds py_int tp)
                 (\<lambda>n. sum_bind (float_of_int n) (\<lambda>r. Inr (Fin r)))
           | None \<Rightarrow> Inl (TypeError ''NoneType'')))"

definition missing_both :: "(string \<rightharpoonup> string) \<Rightarrow> bool" where
  "missing_both args = (args ''seconds'' = None \<and> args ''time'' = None)"

definition invalid_remaining :: "int_reader \<Rightarrow> float_reader \<Rightarrow> (string \<rightharpoonup> string) \<Rightarrow> bool" where
  "invalid_remaining py_int py_float args =
     (case args ''seconds'' of
        Some sp \<Rightarrow> isl (py_float sp)
      | None \<Rightarrow> (case args ''time'' of Some tp \<Rightarrow> malformed_time py_int tp | None \<Rightarrow> True))"

definition invalid_total :: "int_reader \<Rightarrow> float_reader \<Rightarrow> (string \<rightharpoonup> string) \<Rightarrow> bool" where
  "invalid_total py_int py_float args =
     (case args ''seconds'' of
        Some sp \<Rightarrow>
          (case py_float sp of Inl _ \<Rightarrow> True | Inr x \<Rightarrow>
             (case int_of_pyfloat x of Inl _ \<Rightarrow> True | Inr n \<Rightarrow> n \<le> 0))
      | None \<Rightarrow>
          (case args ''time'' of
             Some tp \<Rightarrow>
               malformed_time py_int tp
               \<or> (case parse_hms_to_seconds py_int tp of Inr n \<Rightarrow> n \<le> 0 | Inl _ \<Rightarrow> True)
           | None \<Rightarrow> True))"

definition invalid_ends :: "int_reader \<Rightarrow> (string \<rightharpoonup> string) \<Rightarrow> bool" where
  "invalid_ends py_int args =
     (case args ''count'' of
        None \<Rightarrow> True
      | Some c \<Rightarrow> c = [] \<or> (case py_int c of Inl _ \<Rightarrow> True | Inr n \<Rightarrow> n < 1))"

definition is_rejection :: "response \<Rightarrow> bool" where
  "is_rejection resp =
     (snd resp = 400 \<and> map_of (fst resp) ''ok'' = Some (JBool False)
      \<and> (case map_of (fst resp) ''error'' of Some (JStr _) \<Rightarrow> True | _ \<Rightarrow> False))"

section \<open>Readers for running the model\<close>

text \<open>
  One reading of \<^verbatim>\<open>int(str)\<close> and \<^verbatim>\<open>float(str)\<close>, for the examples below:
  white space around, an optional sign, decimal digits; \<^verbatim>\<open>float\<close> also reads
  \<^verbatim>\<open>nan\<close>, \<^verbatim>\<open>inf\<close> and \<^verbatim>\<open>-inf\<close>. The theorems hold for every reader.
\<close>

definition digit_val :: "char \<Rightarrow> int option" where
  "digit_val c = map_of (zip ''0123456789'' [0, 1, 2, 3, 4, 5, 6, 7, 8, 9]) c"

fun digits_val :: "int \<Rightarrow> string \<Rightarrow> int option" where
  "digits_val acc [] = Some acc"
| "digits_val acc (c # cs) =
     (case digit_val c of None \<Rightarrow> None | Some d \<Rightarrow> digits_val (acc * 10 + d) cs)"

definition ascii_int :: int_reader where
  "ascii_int s =
     (let t = strip s;
          (neg, ds) = (case t of
                         c # r \<Rightarrow> if c = CHR ''-'' then (True, r)
                                  else if c = CHR ''+'' then (False, r) else (False, t)
                       | [] \<Rightarrow> (False, []))
      in if ds = [] then Inl (ValueError ''invalid literal for int() with base 10'')
         else (case digits_val 0 ds of
                 None \<Rightarrow> Inl (ValueError ''invalid literal for int() with base 10'')
               | Some n \<Rightarrow> Inr (if neg then - n else n)))"

definition ascii_float :: float_reader where
  "ascii_float s =
     (let t = strip s
      in if t = ''nan'' then Inr NaN
         else if t = ''inf'' then Inr PosInf
         else if t = ''-inf'' then Inr NegInf
         else (case ascii_int t of
                 Inl _ \<Rightarrow> Inl (ValueError ''could not convert string to float'')
               | Inr n \<Rightarrow> Inr (Fin (of_int n))))"

section \<open>Rules for running the calls\<close>

lemma seq_Return: "m s = (Return x, s') \<Longrightarrow> seq m f s = f x s'"
  by (simp add: seq_def)

lemma seq_Raise: "m s = (Raise e, s') \<Longrightarrow> seq m f s = (Raise e, s')"
  by (simp add: seq_def)

lemma seq_Blocked: "m s = (Blocked, s') \<Longrightarrow> seq m f s = (Blocked, s')"
  by (simp add: seq_def)

lemma try_Return: "m s = (Return x, s') \<Longrightarrow> try_except m h s = (Return x, s')"
  by (simp add: try_except_def)

lemma try_Raise: "m s = (Raise e, s') \<Longrightarrow> try_except m h s = h e s'"
  by (simp add: try_except_def)

lemma try_Blocked: "m s = (Blocked, s') \<Longrightarrow> try_except m h s = (Blocked, s')"
  by (simp add: try_except_def)

lemma lift_Inr: "lift (Inr x) s = (Return x, s)"
  by (simp add: lift_def)

lemma lift_Inl: "lift (Inl e) s = (Raise e, s)"
  by (simp add: lift_def)

lemma total_seconds_free: "\<not> lock_held s \<Longrightarrow> total_seconds s = (Return (TOTAL_SECONDS s), s)"
  by (simp add: total_seconds_def with_state_lock_def)

lemma num_ends_free: "\<not> lock_held s \<Longrightarrow> num_ends s = (Return (NUM_ENDS s), s)"
  by (simp add: num_ends_def with_state_lock_def)

lemma set_elapsed_free:
  "\<not> lock_held s \<Longrightarrow>
   set_elapsed now x s = (Return (), s\<lparr>start_epoch := now, manual_elapsed_offset := x\<rparr>)"
  by (simp add: set_elapsed_def with_state_lock_def)

lemma set_elapsed_held: "lock_held s \<Longrightarrow> set_elapsed now x s = (Blocked, s)"
  by (simp add: set_elapsed_def with_state_lock_def)

lemma reset_timer_free:
  "\<not> lock_held s \<Longrightarrow>
   reset_timer now s = (Return (), s\<lparr>start_epoch := now, manual_elapsed_offset := 0\<rparr>)"
  by (simp add: reset_timer_def with_state_lock_def)

lemma pause_timer_held: "lock_held s \<Longrightarrow> pause_timer now s = (Blocked, s)"
  by (simp add: pause_timer_def with_state_lock_def)

lemma resume_timer_held: "lock_held s \<Longrightarrow> resume_timer now s = (Blocked, s)"
  by (simp add: resume_timer_def with_state_lock_def)

section \<open>Pause and resume\<close>

lemma now_elapsed_running:
  "\<not> lock_held s \<Longrightarrow> \<not> paused s \<Longrightarrow>
   now_elapsed now s = (Return (max 0 ((now - start_epoch s) + manual_elapsed_offset s)), s)"
  by (simp add: now_elapsed_def with_state_lock_def)

lemma now_elapsed_paused:
  "\<not> lock_held s \<Longrightarrow> paused s \<Longrightarrow> pause_epoch s = Some p \<Longrightarrow>
   now_elapsed now s = (Return (max 0 ((p - start_epoch s) + manual_elapsed_offset s)), s)"
  by (simp add: now_elapsed_def with_state_lock_def)

lemma now_elapsed_idle:
  assumes "idle s"
  shows "now_elapsed now s =
     (Return (max 0 (((case pause_epoch s of None \<Rightarrow> now | Some p \<Rightarrow> p) - start_epoch s)
                      + manual_elapsed_offset s)), s)"
proof (cases "paused s")
  case True
  with assms obtain p where "pause_epoch s = Some p" by (auto simp: idle_def)
  with True assms show ?thesis by (simp add: now_elapsed_paused idle_def)
next
  case False
  with assms have "pause_epoch s = None" by (simp add: idle_def)
  with False assms show ?thesis by (simp add: now_elapsed_running idle_def)
qed

lemma pause_timer_idle:
  assumes "idle s"
  shows "pause_timer now s =
     (Return (), if paused s then s else s\<lparr>paused := True, pause_epoch := Some now\<rparr>)"
  using assms by (simp add: pause_timer_def with_state_lock_def idle_def)

lemma resume_timer_idle:
  assumes "idle s"
  shows "resume_timer now s =
     (Return (), case pause_epoch s of None \<Rightarrow> s
                 | Some p \<Rightarrow> s\<lparr>start_epoch := start_epoch s + (now - p),
                               paused := False, pause_epoch := None\<rparr>)"
  using assms by (auto simp: resume_timer_def with_state_lock_def idle_def split: option.splits)

lemma idle_after_pause: "idle s \<Longrightarrow> idle (snd (pause_timer now s))"
  by (simp add: pause_timer_idle) (simp add: idle_def)

lemma idle_after_resume: "idle s \<Longrightarrow> idle (snd (resume_timer now s))"
  by (simp add: resume_timer_idle split: option.splits) (simp add: idle_def)

text \<open>
  Claim C3. In a state between two calls, the value \<^verbatim>\<open>now_elapsed\<close> returns at the
  instant \<open>t\<close> of \<^verbatim>\<open>pause_timer\<close> is the value it returns at every instant \<open>t'\<close>
  while the clock stays paused, and the value it returns at the instant \<open>t2\<close> of the
  \<^verbatim>\<open>resume_timer\<close> that follows: no drift during the pause, no jump across the
  resume.
\<close>

theorem pause_resume_continuity:
  assumes "idle s"
  shows "\<exists>v s1 s2. now_elapsed t s = (Return v, s)
           \<and> pause_timer t s = (Return (), s1) \<and> paused s1
           \<and> (\<forall>t'. now_elapsed t' s1 = (Return v, s1))
           \<and> resume_timer t2 s1 = (Return (), s2) \<and> \<not> paused s2
           \<and> now_elapsed t2 s2 = (Return v, s2)"
proof (cases "pause_epoch s")
  case None
  with assms have run: "\<not> paused s" "\<not> lock_held s" by (simp_all add: idle_def)
  define s1 where "s1 = s\<lparr>paused := True, pause_epoch := Some t\<rparr>"
  define s2 where "s2 = s1\<lparr>start_epoch := start_epoch s1 + (t2 - t), paused := False, pause_epoch := None\<rparr>"
  have i1: "idle s1" using run by (simp add: s1_def idle_def)
  have i2: "idle s2" using run by (simp add: s2_def s1_def idle_def)
  have a: "now_elapsed t s = (Return (max 0 ((t - start_epoch s) + manual_elapsed_offset s)), s)"
    using run by (simp add: now_elapsed_running)
  have b: "pause_timer t s = (Return (), s1)"
    using assms run by (simp add: pause_timer_idle s1_def)
  have c: "\<forall>t'. now_elapsed t' s1 = (Return (max 0 ((t - start_epoch s) + manual_elapsed_offset s)), s1)"
    using i1 by (simp add: now_elapsed_idle) (simp add: s1_def)
  have d: "resume_timer t2 s1 = (Return (), s2)"
    using i1 by (simp add: resume_timer_idle) (simp add: s1_def s2_def)
  have e: "now_elapsed t2 s2 = (Return (max 0 ((t - start_epoch s) + manual_elapsed_offset s)), s2)"
    using i2 by (simp add: now_elapsed_idle) (simp add: s1_def s2_def)
  have "paused s1" "\<not> paused s2" by (simp_all add: s1_def s2_def)
  with a b c d e show ?thesis by blast
next
  case (Some p)
  with assms have pz: "paused s" "\<not> lock_held s" by (simp_all add: idle_def)
  define s2 where "s2 = s\<lparr>start_epoch := start_epoch s + (t2 - p), paused := False, pause_epoch := None\<rparr>"
  have i2: "idle s2" using pz by (simp add: s2_def idle_def)
  have a: "\<forall>t'. now_elapsed t' s = (Return (max 0 ((p - start_epoch s) + manual_elapsed_offset s)), s)"
    using pz Some by (simp add: now_elapsed_paused)
  have b: "pause_timer t s = (Return (), s)"
    using assms pz by (simp add: pause_timer_idle)
  have d: "resume_timer t2 s = (Return (), s2)"
    using assms Some by (simp add: resume_timer_idle s2_def)
  have e: "now_elapsed t2 s2 = (Return (max 0 ((p - start_epoch s) + manual_elapsed_offset s)), s2)"
    using i2 by (simp add: now_elapsed_idle) (simp add: s2_def)
  have "\<not> paused s2" by (simp add: s2_def)
  with a b d e pz show ?thesis by blast
qed

theorem pause_resume_continuity_witness:
  "idle (initial_state 7200 8 [] [] 0)
   \<and> (\<exists>s1 s2. now_elapsed 100 (initial_state 7200 8 [] [] 0)
                  = (Return 100, initial_state 7200 8 [] [] 0)
        \<and> pause_timer 100 (initial_state 7200 8 [] [] 0) = (Return (), s1)
        \<and> now_elapsed 450 s1 = (Return 100, s1)
        \<and> resume_timer 500 s1 = (Return (), s2)
        \<and> now_elapsed 500 s2 = (Return 100, s2))"
proof -
  have i: "idle (initial_state 7200 8 [] [] 0)"
    by (simp add: idle_def initial_state_def)
  have v: "now_elapsed 100 (initial_state 7200 8 [] [] 0)
             = (Return 100, initial_state 7200 8 [] [] 0)"
    using i by (simp add: now_elapsed_idle) (simp add: initial_state_def)
  from pause_resume_continuity [OF i, of 100 500] v i show ?thesis
    by auto
qed

text \<open>
  Claim C8. A second \<^verbatim>\<open>pause_timer\<close> right after a first one returns normally and
  leaves the state of the first; likewise a second \<^verbatim>\<open>resume_timer\<close> after a first.
\<close>

theorem pause_resume_idempotent:
  assumes "idle s"
  shows "fst (pause_timer t1 s) = Return ()
         \<and> pause_timer t2 (snd (pause_timer t1 s)) = (Return (), snd (pause_timer t1 s))
         \<and> fst (resume_timer t1 s) = Return ()
         \<and> resume_timer t2 (snd (resume_timer t1 s)) = (Return (), snd (resume_timer t1 s))"
proof -
  have p: "idle (snd (pause_timer t1 s))" using assms by (rule idle_after_pause)
  have r: "idle (snd (resume_timer t1 s))" using assms by (rule idle_after_resume)
  have "paused (snd (pause_timer t1 s))"
    using assms by (simp add: pause_timer_idle)
  moreover have "pause_epoch (snd (resume_timer t1 s)) = None"
    using assms by (simp add: resume_timer_idle split: option.splits)
  ultimately show ?thesis
    using assms p r by (simp add: pause_timer_idle resume_timer_idle)
qed

theorem pause_resume_idempotent_witness:
  "idle (initial_state 7200 8 [] [] 0)
   \<and> pause_timer 30 (snd (pause_timer 20 (initial_state 7200 8 [] [] 0)))
       = (Return (), snd (pause_timer 20 (initial_state 7200 8 [] [] 0)))
   \<and> resume_timer 30 (snd (resume_timer 20 (initial_state 7200 8 [] [] 0)))
       = (Return (), snd (resume_timer 20 (initial_state 7200 8 [] [] 0)))"
proof -
  have i: "idle (initial_state 7200 8 [] [] 0)"
    by (simp add: idle_def initial_state_def)
  from pause_resume_idempotent [OF i, of 20 30] i show ?thesis
    by simp
qed

section \<open>What the handlers do in a state between two calls\<close>

lemma set_total_parse:
  "\<not> missing_both args \<Longrightarrow>
   set_total py_int py_float args t1 t2 =
     try_except
       (seq (lift (requested_total py_int py_float args))
          (\<lambda>new_total.
             if new_total \<le> 0 then ret (bad_request ''total must be > 0'')
             else seq (now_elapsed t1) (\<lambda>el.
               seq (with_state_lock (\<lambda>s.
                      let s1 = s\<lparr>TOTAL_SECONDS := new_total\<rparr>
                      in if el > of_int (TOTAL_SECONDS s1)
                         then set_elapsed t2 (of_int (TOTAL_SECONDS s1)) s1
                         else (Return (), s1)))
                 (\<lambda>_. seq total_seconds (\<lambda>tot.
                    ret ([(''ok'', JBool True), (''total_seconds'', JInt tot)], 200))))))
       (\<lambda>e. ret (bad_request (exn_text e)))"
  by (auto simp: set_total_def requested_total_def missing_both_def split: option.splits)

lemma set_total_missing:
  "missing_both args \<Longrightarrow>
   set_total py_int py_float args t1 t2 s =
     (Return (bad_request ''Provide seconds or time query param''), s)"
  by (simp add: set_total_def missing_both_def ret_def)

lemma set_total_unreadable:
  "\<not> missing_both args \<Longrightarrow> requested_total py_int py_float args = Inl e \<Longrightarrow>
   set_total py_int py_float args t1 t2 s = (Return (bad_request (exn_text e)), s)"
  by (simp add: set_total_parse try_except_def seq_def lift_def ret_def)

lemma set_total_not_positive:
  "\<not> missing_both args \<Longrightarrow> requested_total py_int py_float args = Inr n \<Longrightarrow> n \<le> 0 \<Longrightarrow>
   set_total py_int py_float args t1 t2 s = (Return (bad_request ''total must be > 0''), s)"
  by (simp add: set_total_parse try_except_def seq_def lift_def ret_def)

lemma clamp_block_held:
  "\<not> lock_held s \<Longrightarrow> of_int n < el \<Longrightarrow>
   with_state_lock (\<lambda>s.
       let s1 = s\<lparr>TOTAL_SECONDS := n\<rparr>
       in if el > of_int (TOTAL_SECONDS s1)
          then set_elapsed t2 (of_int (TOTAL_SECONDS s1)) s1
          else (Return (), s1)) s
   = (Blocked, s\<lparr>TOTAL_SECONDS := n, lock_held := True\<rparr>)"
proof -
  have "lock_held (s\<lparr>lock_held := True, TOTAL_SECONDS := n\<rparr>)" by simp
  then have "set_elapsed t2 (of_int n) (s\<lparr>lock_held := True, TOTAL_SECONDS := n\<rparr>) = (Blocked, s\<lparr>lock_held := True, TOTAL_SECONDS := n\<rparr>)"
    by (rule set_elapsed_held)
  moreover assume "\<not> lock_held s" "of_int n < el"
  ultimately show ?thesis
    by (simp add: with_state_lock_def Let_def)
qed

lemma clamp_block_free:
  "\<not> lock_held s \<Longrightarrow> \<not> of_int n < el \<Longrightarrow>
   with_state_lock (\<lambda>s.
       let s1 = s\<lparr>TOTAL_SECONDS := n\<rparr>
       in if el > of_int (TOTAL_SECONDS s1)
          then set_elapsed t2 (of_int (TOTAL_SECONDS s1)) s1
          else (Return (), s1)) s
   = (Return (), s\<lparr>TOTAL_SECONDS := n\<rparr>)"
  by (simp add: with_state_lock_def Let_def)

lemma set_total_blocks:
  assumes "idle s" and "\<not> missing_both args"
    and "requested_total py_int py_float args = Inr n" and "0 < n"
    and "now_elapsed t1 s = (Return el, s)" and "of_int n < el"
  shows "set_total py_int py_float args t1 t2 s
           = (Blocked, s\<lparr>TOTAL_SECONDS := n, lock_held := True\<rparr>)"
proof -
  have f: "\<not> lock_held s" using assms(1) by (simp add: idle_def)
  show ?thesis
    using assms(2-6) clamp_block_held [OF f assms(6), of t2]
    by (simp add: set_total_parse try_except_def seq_def lift_def ret_def)
qed

lemma set_total_accepts:
  assumes "idle s" and "\<not> missing_both args"
    and "requested_total py_int py_float args = Inr n" and "0 < n"
    and "now_elapsed t1 s = (Return el, s)" and "\<not> of_int n < el"
  shows "set_total py_int py_float args t1 t2 s
           = (Return ([(''ok'', JBool True), (''total_seconds'', JInt n)], 200),
              s\<lparr>TOTAL_SECONDS := n\<rparr>)"
proof -
  have f: "\<not> lock_held s" using assms(1) by (simp add: idle_def)
  have g: "\<not> lock_held (s\<lparr>TOTAL_SECONDS := n\<rparr>)" using f by simp
  show ?thesis
    using assms(2-6) clamp_block_free [OF f assms(6), of t2] total_seconds_free [OF g]
    by (simp add: set_total_parse try_except_def seq_def lift_def ret_def)
qed

lemma ascii_float_3600: "ascii_float ''3600'' = Inr (Fin 3600)"
  by (simp add: ascii_float_def ascii_int_def strip_def is_space_def digit_val_def)

section \<open>Setting the total, and the lock\<close>

lemma initial_idle: "idle (initial_state tot n logo msg t0)"
  by (simp add: idle_def initial_state_def)

lemma seconds_3600_total:
  "requested_total ascii_int ascii_float [''seconds'' \<mapsto> ''3600''] = Inr 3600"
  by (simp add: requested_total_def ascii_float_3600 sum_bind_def int_of_pyfloat_def
        int_of_float_def)

lemma seconds_present: "\<not> missing_both [''seconds'' \<mapsto> v]"
  by (simp add: missing_both_def)

text \<open>
  Claim C2, at the scenario of the specification: the clock has run 7200 seconds, the
  total is 7200, and \<^verbatim>\<open>/set_total?seconds=3600\<close> arrives. \<^verbatim>\<open>set_total\<close> stores the
  new total, then calls \<^verbatim>\<open>set_elapsed\<close> while it holds \<^verbatim>\<open>state_lock\<close>; the call
  never returns, so the elapsed time is never read as 3600.
\<close>

theorem set_total_clamp_never_returns:
  "now_elapsed 7200 (initial_state 7200 8 [] [] 0)
     = (Return 7200, initial_state 7200 8 [] [] 0)
   \<and> set_total ascii_int ascii_float [''seconds'' \<mapsto> ''3600''] 7200 7200
         (initial_state 7200 8 [] [] 0)
     = (Blocked, (initial_state 7200 8 [] [] 0)\<lparr>TOTAL_SECONDS := 3600, lock_held := True\<rparr>)"
proof -
  have el: "now_elapsed 7200 (initial_state 7200 8 [] [] 0)
              = (Return 7200, initial_state 7200 8 [] [] 0)"
    using initial_idle [of 7200 8 "[]" "[]" 0]
    by (simp add: now_elapsed_idle) (simp add: initial_state_def)
  have "set_total ascii_int ascii_float [''seconds'' \<mapsto> ''3600''] 7200 7200
          (initial_state 7200 8 [] [] 0)
        = (Blocked, (initial_state 7200 8 [] [] 0)\<lparr>TOTAL_SECONDS := 3600, lock_held := True\<rparr>)"
    by (rule set_total_blocks [OF initial_idle seconds_present seconds_3600_total _ el]) simp_all
  with el show ?thesis by simp
qed

lemma space_key_blocks: "\<not> lock_held s \<Longrightarrow> fst (space_key now s) = Blocked"
  by (simp add: space_key_def with_state_lock_def pause_timer_held resume_timer_held)

lemma now_elapsed_held: "lock_held s \<Longrightarrow> now_elapsed t s = (Blocked, s)"
  by (simp add: now_elapsed_def with_state_lock_def)

text \<open>
  Claim C10. Two operations do not complete. The space key of the render loop waits
  for ever in every state. \<^verbatim>\<open>set_total\<close> with a valid total below the elapsed time
  waits for ever with \<^verbatim>\<open>state_lock\<close> taken, and every later \<^verbatim>\<open>now_elapsed\<close> waits
  too.
\<close>

theorem lock_discipline_self_deadlock:
  assumes "idle s"
  shows "fst (space_key now s) = Blocked
         \<and> (\<not> missing_both args \<longrightarrow> requested_total py_int py_float args = Inr n \<longrightarrow> 0 < n
              \<longrightarrow> now_elapsed t1 s = (Return el, s) \<longrightarrow> of_int n < el
              \<longrightarrow> fst (set_total py_int py_float args t1 t2 s) = Blocked
                  \<and> lock_held (snd (set_total py_int py_float args t1 t2 s))
                  \<and> fst (now_elapsed t (snd (set_total py_int py_float args t1 t2 s)))
                      = Blocked)"
proof -
  have "\<not> lock_held s" using assms by (simp add: idle_def)
  then have "fst (space_key now s) = Blocked" by (rule space_key_blocks)
  moreover have "fst (set_total py_int py_float args t1 t2 s) = Blocked
                  \<and> lock_held (snd (set_total py_int py_float args t1 t2 s))
                  \<and> fst (now_elapsed t (snd (set_total py_int py_float args t1 t2 s)))
                      = Blocked"
    if "\<not> missing_both args" "requested_total py_int py_float args = Inr n" "0 < n"
       "now_elapsed t1 s = (Return el, s)" "of_int n < el"
    using set_total_blocks [OF assms that, of t2] by (simp add: now_elapsed_held)
  ultimately show ?thesis by blast
qed

theorem lock_discipline_self_deadlock_witness:
  "idle (initial_state 7200 8 [] [] 0)
   \<and> \<not> missing_both [''seconds'' \<mapsto> ''3600'']
   \<and> requested_total ascii_int ascii_float [''seconds'' \<mapsto> ''3600''] = Inr 3600
   \<and> now_elapsed 7200 (initial_state 7200 8 [] [] 0)
        = (Return 7200, initial_state 7200 8 [] [] 0)
   \<and> fst (space_key 10 (initial_state 7200 8 [] [] 0)) = Blocked
   \<and> fst (set_total ascii_int ascii_float [''seconds'' \<mapsto> ''3600''] 7200 7201
             (initial_state 7200 8 [] [] 0)) = Blocked
   \<and> fst (now_elapsed 7300
             (snd (set_total ascii_int ascii_float [''seconds'' \<mapsto> ''3600''] 7200 7201
                    (initial_state 7200 8 [] [] 0)))) = Blocked"
proof -
  have el: "now_elapsed 7200 (initial_state 7200 8 [] [] 0)
              = (Return 7200, initial_state 7200 8 [] [] 0)"
    using initial_idle [of 7200 8 "[]" "[]" 0]
    by (simp add: now_elapsed_idle) (simp add: initial_state_def)
  from lock_discipline_self_deadlock
         [where s = "initial_state 7200 8 [] [] 0" and now = 10
            and args = "[''seconds'' \<mapsto> ''3600'']" and py_int = ascii_int
            and py_float = ascii_float and n = 3600 and ?t1.0 = 7200 and el = 7200
            and ?t2.0 = 7201 and t = 7300]
       el seconds_present [of "''3600''"] seconds_3600_total initial_idle [of 7200 8 "[]" "[]" 0]
  show ?thesis by simp
qed

section \<open>Setting the elapsed time\<close>

lemma set_elapsed_keeps_paused:
  "\<not> lock_held s \<Longrightarrow>
   fst (set_elapsed now x s) = Return () \<and> paused (snd (set_elapsed now x s)) = paused s
   \<and> pause_epoch (snd (set_elapsed now x s)) = pause_epoch s"
  by (simp add: set_elapsed_free)

lemma set_elapsed_read_running:
  assumes "idle s" and "\<not> paused s" and "0 \<le> x" and "t \<le> t'"
  shows "fst (now_elapsed t' (snd (set_elapsed t x s))) = Return (x + (t' - t))"
proof -
  have f: "\<not> lock_held s" "pause_epoch s = None" using assms(1,2) by (simp_all add: idle_def)
  have "idle (s\<lparr>start_epoch := t, manual_elapsed_offset := x\<rparr>)"
    using assms(1) by (simp add: idle_def)
  then show ?thesis
    using f assms(3,4) by (simp add: set_elapsed_free now_elapsed_idle)
qed

lemma set_elapsed_read_paused:
  assumes "idle s" and "pause_epoch s = Some p"
  shows "fst (now_elapsed t' (snd (set_elapsed t x s))) = Return (max 0 (x - (t - p)))"
proof -
  have f: "\<not> lock_held s" using assms(1) by (simp add: idle_def)
  have "idle (s\<lparr>start_epoch := t, manual_elapsed_offset := x\<rparr>)"
    using assms(1) by (simp add: idle_def)
  then show ?thesis
    using f assms(2) by (simp add: set_elapsed_free now_elapsed_idle algebra_simps)
qed

lemma paused_at_100:
  "pause_timer 100 (initial_state 7200 8 [] [] 0)
     = (Return (), (initial_state 7200 8 [] [] 0)\<lparr>paused := True, pause_epoch := Some 100\<rparr>)"
  using initial_idle [of 7200 8 "[]" "[]" 0]
  by (simp add: pause_timer_idle) (simp add: initial_state_def)

lemma paused_at_100_idle:
  "idle ((initial_state 7200 8 [] [] 0)\<lparr>paused := True, pause_epoch := Some 100\<rparr>)"
  by (simp add: idle_def initial_state_def)

text \<open>
  Claim C1, in a paused state: the clock is paused at 100, and \<^verbatim>\<open>set_elapsed(500)\<close>
  is called at 200. It keeps the paused flag, yet \<^verbatim>\<open>now_elapsed\<close> at the same instant
  returns 400: \<^verbatim>\<open>_start_epoch\<close> moved to 200 and \<^verbatim>\<open>_pause_epoch\<close> stayed at 100.
\<close>

theorem set_elapsed_while_paused_reads_less:
  "fst (pause_timer 100 (initial_state 7200 8 [] [] 0)) = Return ()
   \<and> paused (snd (pause_timer 100 (initial_state 7200 8 [] [] 0)))
   \<and> fst (set_elapsed 200 500 (snd (pause_timer 100 (initial_state 7200 8 [] [] 0))))
       = Return ()
   \<and> fst (now_elapsed 200
            (snd (set_elapsed 200 500 (snd (pause_timer 100 (initial_state 7200 8 [] [] 0))))))
       = Return 400"
  using paused_at_100_idle set_elapsed_read_paused [OF paused_at_100_idle, of 100 200 200 500]
  by (simp add: paused_at_100 set_elapsed_free idle_def)

section \<open>Quick adjustments and the remaining time\<close>

lemma add_time_idle:
  assumes "idle s" and "now_elapsed t1 s = (Return cur, s)"
  shows "add_time t1 t2 s =
     (Return ([(''ok'', JBool True), (''message'', JStr ''Added 1 minute''),
               (''elapsed_seconds'', JInt (int_of_float (cur + 60)))], 200),
      s\<lparr>start_epoch := t2, manual_elapsed_offset := cur + 60\<rparr>)"
proof -
  have f: "\<not> lock_held s" using assms(1) by (simp add: idle_def)
  show ?thesis
    using assms(2) set_elapsed_free [OF f, of t2 "cur + 60"]
    by (simp add: add_time_def try_except_def seq_def ret_def Let_def)
qed

lemma subtract_time_idle:
  assumes "idle s" and "now_elapsed t1 s = (Return cur, s)"
  shows "subtract_time t1 t2 s =
     (Return ([(''ok'', JBool True), (''message'', JStr ''Subtracted 1 minute''),
               (''elapsed_seconds'', JInt (int_of_float (max 0 (cur - 60))))], 200),
      s\<lparr>start_epoch := t2, manual_elapsed_offset := max 0 (cur - 60)\<rparr>)"
proof -
  have f: "\<not> lock_held s" using assms(1) by (simp add: idle_def)
  show ?thesis
    using assms(2) set_elapsed_free [OF f, of t2 "max 0 (cur - 60)"]
    by (simp add: subtract_time_def try_except_def seq_def ret_def Let_def)
qed

lemma add_time_running:
  assumes "idle s" and "\<not> paused s" and "now_elapsed t s = (Return cur, s)"
  shows "fst (now_elapsed t (snd (add_time t t s))) = Return (cur + 60)"
proof -
  have f: "\<not> lock_held s" "pause_epoch s = None" using assms(1,2) by (simp_all add: idle_def)
  have c: "0 \<le> cur" using assms(3) f assms(2) by (simp add: now_elapsed_running)
  have "idle (s\<lparr>start_epoch := t, manual_elapsed_offset := cur + 60\<rparr>)"
    using assms(1) by (simp add: idle_def)
  then show ?thesis
    using f c by (simp add: add_time_idle [OF assms(1,3)] now_elapsed_idle)
qed

lemma subtract_time_running:
  assumes "idle s" and "\<not> paused s" and "now_elapsed t s = (Return cur, s)"
  shows "fst (now_elapsed t (snd (subtract_time t t s))) = Return (max 0 (cur - 60))"
proof -
  have f: "\<not> lock_held s" "pause_epoch s = None" using assms(1,2) by (simp_all add: idle_def)
  have "idle (s\<lparr>start_epoch := t, manual_elapsed_offset := max 0 (cur - 60)\<rparr>)"
    using assms(1) by (simp add: idle_def)
  then show ?thesis
    using f by (simp add: subtract_time_idle [OF assms(1,3)] now_elapsed_idle)
qed

lemma clamp_remaining_range:
  "0 \<le> ftot \<Longrightarrow> 0 \<le> clamp_remaining r ftot \<and> clamp_remaining r ftot \<le> ftot"
  by (cases r) (simp_all add: clamp_remaining_def)

lemma clamp_remaining_py:
  "py_max (Fin 0) (py_min r (Fin ftot)) = Fin (clamp_remaining r ftot)"
  by (cases r) (auto simp: py_max_def py_min_def clamp_remaining_def max_def min_def)

lemma set_remaining_parse:
  "\<not> missing_both args \<Longrightarrow>
   set_remaining py_int py_float args now =
     seq total_seconds (\<lambda>tot.
       try_except
         (seq (lift (requested_remaining py_int py_float args))
            (\<lambda>rem0. seq (lift (float_of_int tot)) (\<lambda>ftot.
               let rem = clamp_remaining rem0 ftot;
                   elapsed_to_set = ftot - rem
               in seq (set_elapsed now elapsed_to_set) (\<lambda>_.
                    ret ([(''ok'', JBool True), (''message'', JStr ''remaining set''),
                          (''remaining_seconds'', JInt (int_of_float rem))], 200)))))
         (\<lambda>e. ret (bad_request (exn_text e))))"
  by (auto simp: set_remaining_def requested_remaining_def missing_both_def
           split: option.splits)

lemma set_remaining_missing:
  "\<not> lock_held s \<Longrightarrow> missing_both args \<Longrightarrow>
   set_remaining py_int py_float args now s =
     (Return (bad_request ''Provide seconds or time query param''), s)"
  by (simp add: set_remaining_def missing_both_def ret_def seq_def total_seconds_free)

lemma set_remaining_unreadable:
  "\<not> lock_held s \<Longrightarrow> \<not> missing_both args \<Longrightarrow>
   requested_remaining py_int py_float args = Inl e \<Longrightarrow>
   set_remaining py_int py_float args now s = (Return (bad_request (exn_text e)), s)"
  by (simp add: set_remaining_parse try_except_def seq_def lift_def ret_def total_seconds_free)

lemma set_remaining_total_overflow:
  "\<not> lock_held s \<Longrightarrow> \<not> missing_both args \<Longrightarrow>
   requested_remaining py_int py_float args = Inr r \<Longrightarrow>
   float_of_int (TOTAL_SECONDS s) = Inl e \<Longrightarrow>
   set_remaining py_int py_float args now s = (Return (bad_request (exn_text e)), s)"
  by (simp add: set_remaining_parse try_except_def seq_def lift_def ret_def total_seconds_free)

lemma set_remaining_accepts:
  assumes "\<not> lock_held s" and "\<not> missing_both args"
    and "requested_remaining py_int py_float args = Inr r"
    and "float_of_int (TOTAL_SECONDS s) = Inr ftot"
  shows "set_remaining py_int py_float args now s =
     (Return ([(''ok'', JBool True), (''message'', JStr ''remaining set''),
               (''remaining_seconds'', JInt (int_of_float (clamp_remaining r ftot)))], 200),
      s\<lparr>start_epoch := now, manual_elapsed_offset := ftot - clamp_remaining r ftot\<rparr>)"
  using assms
    set_elapsed_free [OF assms(1), of now "ftot - clamp_remaining r ftot"]
  by (simp add: set_remaining_parse try_except_def seq_def lift_def ret_def
        total_seconds_free Let_def)

text \<open>
  Claim C6, in a paused state: the clock is paused at 100 with 100 seconds elapsed, and
  the request arrives at 200. \<^verbatim>\<open>add_time\<close> reports 160 and leaves 60 elapsed;
  \<^verbatim>\<open>subtract_time\<close> reports 40 and leaves 0.
\<close>

theorem quick_adjust_while_paused_misses:
  "fst (now_elapsed 200 (snd (pause_timer 100 (initial_state 7200 8 [] [] 0)))) = Return 100
   \<and> fst (add_time 200 200 (snd (pause_timer 100 (initial_state 7200 8 [] [] 0))))
       = Return ([(''ok'', JBool True), (''message'', JStr ''Added 1 minute''),
                  (''elapsed_seconds'', JInt 160)], 200)
   \<and> fst (now_elapsed 200
            (snd (add_time 200 200 (snd (pause_timer 100 (initial_state 7200 8 [] [] 0))))))
       = Return 60
   \<and> fst (subtract_time 200 200 (snd (pause_timer 100 (initial_state 7200 8 [] [] 0))))
       = Return ([(''ok'', JBool True), (''message'', JStr ''Subtracted 1 minute''),
                  (''elapsed_seconds'', JInt 40)], 200)
   \<and> fst (now_elapsed 200
            (snd (subtract_time 200 200
                    (snd (pause_timer 100 (initial_state 7200 8 [] [] 0))))))
       = Return 0"
proof -
  let ?s = "(initial_state 7200 8 [] [] 0)\<lparr>paused := True, pause_epoch := Some 100\<rparr>"
  have cur: "now_elapsed 200 ?s = (Return 100, ?s)"
    using paused_at_100_idle by (simp add: now_elapsed_idle) (simp add: initial_state_def)
  have a: "idle (?s\<lparr>start_epoch := 200, manual_elapsed_offset := 160\<rparr>)"
    and b: "idle (?s\<lparr>start_epoch := 200, manual_elapsed_offset := 40\<rparr>)"
    by (simp_all add: idle_def initial_state_def)
  have "fst (now_elapsed 200 (?s\<lparr>start_epoch := 200, manual_elapsed_offset := 160\<rparr>))
          = Return 60"
    using a by (simp add: now_elapsed_idle)
  moreover have "fst (now_elapsed 200 (?s\<lparr>start_epoch := 200, manual_elapsed_offset := 40\<rparr>))
          = Return 0"
    using b by (simp add: now_elapsed_idle)
  ultimately show ?thesis
    using cur
    by (simp add: paused_at_100 add_time_idle [OF paused_at_100_idle cur]
          subtract_time_idle [OF paused_at_100_idle cur] int_of_float_def)
qed

section \<open>Rejected requests\<close>

lemma parse_raises_iff_malformed:
  "isl (parse_hms_to_seconds py_int tp) = malformed_time py_int tp"
  by (auto simp: parse_hms_to_seconds_def malformed_time_def sum_bind_def Let_def
           split: list.splits sum.splits)

lemma parse_part_count:
  "length (split_on CHR '':'' (strip tp)) \<notin> {1, 2, 3} \<Longrightarrow>
   parse_hms_to_seconds py_int tp = Inl (ValueError ''Invalid time format'')"
  by (auto simp: parse_hms_to_seconds_def split: list.splits)

lemma rejection_bad_request: "is_rejection (bad_request msg)"
  by (simp add: is_rejection_def bad_request_def)

lemma invalid_remaining_cases:
  "invalid_remaining py_int py_float args \<Longrightarrow>
   missing_both args \<or> isl (requested_remaining py_int py_float args)"
  by (auto simp: invalid_remaining_def missing_both_def requested_remaining_def sum_bind_def
           parse_raises_iff_malformed [symmetric]
           split: option.splits sum.splits)

lemma invalid_total_cases:
  "invalid_total py_int py_float args =
     (missing_both args
      \<or> (case requested_total py_int py_float args of Inl _ \<Rightarrow> True | Inr n \<Rightarrow> n \<le> 0))"
  by (auto simp: invalid_total_def missing_both_def requested_total_def sum_bind_def
           parse_raises_iff_malformed [symmetric]
           split: option.splits sum.splits)

lemma set_ends_bad_request:
  "invalid_ends py_int args \<Longrightarrow>
   \<exists>msg. set_ends py_int args s = (Return (bad_request msg), s)"
  by (auto simp: invalid_ends_def set_ends_def ret_def try_except_def seq_def lift_def
           split: option.splits sum.splits)

lemma set_ends_rejects:
  assumes "invalid_ends py_int args"
  shows "\<exists>resp. set_ends py_int args s = (Return resp, s) \<and> is_rejection resp"
proof -
  from assms obtain msg where "set_ends py_int args s = (Return (bad_request msg), s)"
    using set_ends_bad_request by blast
  then show ?thesis using rejection_bad_request by blast
qed

lemma set_total_rejects:
  assumes "invalid_total py_int py_float args"
  shows "\<exists>resp. set_total py_int py_float args t1 t2 s = (Return resp, s)
                \<and> is_rejection resp"
proof (cases "missing_both args")
  case True
  then show ?thesis by (simp add: set_total_missing rejection_bad_request)
next
  case False
  show ?thesis
  proof (cases "requested_total py_int py_float args")
    case (Inl e)
    with False show ?thesis by (simp add: set_total_unreadable rejection_bad_request)
  next
    case (Inr n)
    with assms False have "n \<le> 0" by (simp add: invalid_total_cases)
    with False Inr show ?thesis by (simp add: set_total_not_positive rejection_bad_request)
  qed
qed

lemma set_remaining_rejects:
  assumes "\<not> lock_held s" and "invalid_remaining py_int py_float args"
  shows "\<exists>resp. set_remaining py_int py_float args now s = (Return resp, s)
                \<and> is_rejection resp"
proof (cases "missing_both args")
  case True
  with assms(1) show ?thesis by (simp add: set_remaining_missing rejection_bad_request)
next
  case False
  with invalid_remaining_cases [OF assms(2)]
  obtain e where "requested_remaining py_int py_float args = Inl e"
    by (auto simp: isl_def)
  with assms(1) False show ?thesis by (simp add: set_remaining_unreadable rejection_bad_request)
qed

text \<open>
  Claim C7. A request for \<^verbatim>\<open>set_remaining\<close>, \<^verbatim>\<open>set_total\<close> or \<^verbatim>\<open>set_ends\<close> is
  invalid when its parameter is missing, when the built-in reader refuses the number,
  when the time string (read when \<^verbatim>\<open>seconds\<close> is absent) does not have one to three
  parts that \<^verbatim>\<open>int\<close> accepts, when the total is not positive, or when the count is
  empty or below 1. The handler then returns a response with status 400,
  \<^verbatim>\<open>ok\<close> false and an error text, and the whole state is the one it started from.
\<close>

theorem invalid_request_rejected:
  "(\<not> lock_held s \<longrightarrow> invalid_remaining py_int py_float args \<longrightarrow>
      (\<exists>resp. set_remaining py_int py_float args now s = (Return resp, s)
              \<and> is_rejection resp))
   \<and> (invalid_total py_int py_float args \<longrightarrow>
      (\<exists>resp. set_total py_int py_float args t1 t2 s = (Return resp, s)
              \<and> is_rejection resp))
   \<and> (invalid_ends py_int args \<longrightarrow>
      (\<exists>resp. set_ends py_int args s = (Return resp, s) \<and> is_rejection resp))"
  using set_remaining_rejects [of s py_int py_float args now]
    set_total_rejects [of py_int py_float args t1 t2 s]
    set_ends_rejects [of py_int args s]
  by blast

lemma four_parts_malformed: "malformed_time ascii_int ''1:02:03:04''"
  by (simp add: malformed_time_def strip_def is_space_def)

lemma bad_digit_malformed: "malformed_time ascii_int ''1:x5''"
  by (simp add: malformed_time_def strip_def is_space_def ascii_int_def digit_val_def)

lemma ascii_int_0: "ascii_int ''0'' = Inr 0"
  by (simp add: ascii_int_def strip_def is_space_def digit_val_def)

lemma ascii_float_0: "ascii_float ''0'' = Inr (Fin 0)"
  by (simp add: ascii_float_def ascii_int_def strip_def is_space_def digit_val_def)

theorem invalid_request_rejected_witness:
  "\<not> lock_held (initial_state 7200 8 [] [] 0)
   \<and> invalid_remaining ascii_int ascii_float [''time'' \<mapsto> ''1:02:03:04'']
   \<and> invalid_remaining ascii_int ascii_float Map.empty
   \<and> invalid_total ascii_int ascii_float [''seconds'' \<mapsto> ''0'']
   \<and> invalid_total ascii_int ascii_float [''time'' \<mapsto> ''1:x5'']
   \<and> invalid_ends ascii_int [''count'' \<mapsto> ''0'']
   \<and> (\<exists>resp. set_remaining ascii_int ascii_float [''time'' \<mapsto> ''1:02:03:04''] 50
                (initial_state 7200 8 [] [] 0) = (Return resp, initial_state 7200 8 [] [] 0)
             \<and> is_rejection resp)
   \<and> (\<exists>resp. set_remaining ascii_int ascii_float Map.empty 50
                (initial_state 7200 8 [] [] 0) = (Return resp, initial_state 7200 8 [] [] 0)
             \<and> is_rejection resp)
   \<and> (\<exists>resp. set_total ascii_int ascii_float [''seconds'' \<mapsto> ''0''] 50 50
                (initial_state 7200 8 [] [] 0) = (Return resp, initial_state 7200 8 [] [] 0)
             \<and> is_rejection resp)
   \<and> (\<exists>resp. set_total ascii_int ascii_float [''time'' \<mapsto> ''1:x5''] 50 50
                (initial_state 7200 8 [] [] 0) = (Return resp, initial_state 7200 8 [] [] 0)
             \<and> is_rejection resp)
   \<and> (\<exists>resp. set_ends ascii_int [''count'' \<mapsto> ''0'']
                (initial_state 7200 8 [] [] 0) = (Return resp, initial_state 7200 8 [] [] 0)
             \<and> is_rejection resp)"
proof -
  have f: "\<not> lock_held (initial_state 7200 8 [] [] 0)"
    by (simp add: initial_state_def)
  have a: "invalid_remaining ascii_int ascii_float [''time'' \<mapsto> ''1:02:03:04'']"
    by (simp add: invalid_remaining_def four_parts_malformed)
  have b: "invalid_remaining ascii_int ascii_float Map.empty"
    by (simp add: invalid_remaining_def)
  have c: "invalid_total ascii_int ascii_float [''seconds'' \<mapsto> ''0'']"
    by (simp add: invalid_total_def ascii_float_0 int_of_pyfloat_def int_of_float_def)
  have d: "invalid_total ascii_int ascii_float [''time'' \<mapsto> ''1:x5'']"
    by (simp add: invalid_total_def bad_digit_malformed)
  have e: "invalid_ends ascii_int [''count'' \<mapsto> ''0'']"
    by (simp add: invalid_ends_def ascii_int_0)
  from f a b c d e
    invalid_request_rejected [of "initial_state 7200 8 [] [] 0" ascii_int ascii_float
       "[''time'' \<mapsto> ''1:02:03:04'']" 50 50 50]
    invalid_request_rejected [of "initial_state 7200 8 [] [] 0" ascii_int ascii_float
       Map.empty 50 50 50]
    invalid_request_rejected [of "initial_state 7200 8 [] [] 0" ascii_int ascii_float
       "[''seconds'' \<mapsto> ''0'']" 50 50 50]
    invalid_request_rejected [of "initial_state 7200 8 [] [] 0" ascii_int ascii_float
       "[''time'' \<mapsto> ''1:x5'']" 50 50 50]
    invalid_request_rejected [of "initial_state 7200 8 [] [] 0" ascii_int ascii_float
       "[''count'' \<mapsto> ''0'']" 50 50 50]
  show ?thesis by blast
qed

section \<open>Progress fraction, segments and pointer\<close>

lemma length_recompute_boxes: "length (recompute_boxes L n) = nat (max 1 n)"
  by (simp add: recompute_boxes_def Let_def)




lemma small_7200: "\<bar>7200::int\<bar> < float_limit"
  by (simp add: float_limit_def)

lemma float_of_int_7200: "float_of_int 7200 = Inr 7200"
  using small_7200 by (simp add: float_of_int_def)





text \<open>
  The two ranges come from the clamps of the block alone, whatever values the division
  and the product give: \<open>q\<close> stands for \<^verbatim>\<open>el / tot\<close> and \<open>fb\<close> for \<^verbatim>\<open>full_boxes\<close>.
\<close>

lemma clamps_in_range:
  "0 \<le> max 0 (min 1 (q::real)) \<and> max 0 (min 1 q) \<le> 1"
  "1 \<le> N \<Longrightarrow> 0 \<le> min (N - 1) (max 0 (fb::int)) \<and> min (N - 1) (max 0 fb) \<le> N - 1"
  by simp_all

lemma py_index_in_bounds:
  "0 \<le> i \<Longrightarrow> i < int (length xs) \<Longrightarrow> py_index xs i = Inr (xs ! nat i)"
  by (simp add: py_index_def)




lemma full_fill_all:
  assumes "int (length B) = fb"
  shows "map (\<lambda>(idx, r). fill_w fb part idx r) (zip [0..fb - 1] B)
           = map (\<lambda>r. rect_width r - 6) B"
proof -
  have "map (\<lambda>(idx, r). fill_w fb part idx r) (zip [0..fb - 1] B)
          = map (\<lambda>(idx, r). rect_width r - 6) (zip [0..fb - 1] B)"
    by (rule map_cong) (auto simp: fill_w_def dest: set_zip_leftD)
  also have "\<dots> = map (\<lambda>r. rect_width r - 6) (map snd (zip [0..fb - 1] B))"
    by (simp add: case_prod_unfold)
  also have "map snd (zip [0..fb - 1] B) = B"
    using assms by (intro map_snd_zip) auto
  finally show ?thesis .
qed

text \<open>
  Claim C5. With a total of 7200, 8 segments and 7200 seconds elapsed, whatever the
  screen measures: the block computes a progress, the fraction is 1, \<^verbatim>\<open>full_boxes\<close>
  is 8, the pointer index is 7, there are 8 fill widths and each is the full inner
  width \<^verbatim>\<open>rect.width - 6\<close> of its box, so no box is partly filled and none lies
  beyond the last.
\<close>

theorem progress_at_total:
  "let box_rects = recompute_boxes L 8
   in \<exists>p. frame_progress 7200 7200 box_rects = Inr p
        \<and> length box_rects = 8 \<and> frac_val p = 1 \<and> end_units p = 8 \<and> full_boxes p = 8
        \<and> partial_val p = 0 \<and> current_idx p = 7
        \<and> length (fill_ws p) = 8
        \<and> fill_ws p = map (\<lambda>r. rect_width r - 6) box_rects
        \<and> current_rect box_rects p = Inr (box_rects ! 7)"
proof -
  define B where "B = recompute_boxes L 8"
  define p where "p = \<lparr>frac_val = 1, end_units = 8, full_boxes = 8, partial_val = 0,
                         fill_ws = map (\<lambda>r. rect_width r - 6) B, current_idx = 7\<rparr>"
  have len: "length B = 8" by (simp add: B_def length_recompute_boxes)
  then have ilen: "int (length B) = 8" by simp
  have fp: "frame_progress 7200 7200 B = Inr p"
    using len full_fill_all [OF ilen, of 0]
    by (simp add: frame_progress_def float_of_int_7200 sum_bind_def Let_def int_of_float_def
          p_def)
  have cr: "current_rect B p = Inr (B ! 7)"
    using len by (simp add: current_rect_def p_def py_index_in_bounds)
  have "length B = 8 \<and> frac_val p = 1 \<and> end_units p = 8 \<and> full_boxes p = 8
        \<and> partial_val p = 0 \<and> current_idx p = 7
        \<and> length (fill_ws p) = 8
        \<and> fill_ws p = map (\<lambda>r. rect_width r - 6) B"
    using len by (simp add: p_def)
  with fp cr show ?thesis
    unfolding Let_def B_def [symmetric] by blast
qed

section \<open>The invariant of the runs, and the elapsed time\<close>

lemma idle_fields:
  "idle s \<Longrightarrow> idle (s\<lparr>start_epoch := a, manual_elapsed_offset := b\<rparr>)"
  "idle s \<Longrightarrow> idle (s\<lparr>TOTAL_SECONDS := n\<rparr>)"
  "idle s \<Longrightarrow> idle (s\<lparr>NUM_ENDS := n\<rparr>)"
  by (simp_all add: idle_def)

lemma idle_free: "idle s \<Longrightarrow> \<not> lock_held s"
  by (simp add: idle_def)

lemma now_elapsed_returns: "idle s \<Longrightarrow> \<exists>v. now_elapsed t s = (Return v, s)"
  by (simp add: now_elapsed_idle)

lemma reset_timer_keeps_idle: "idle s \<Longrightarrow> reset_timer now s = (Return u, s') \<Longrightarrow> idle s'"
  by (auto simp: reset_timer_free idle_free idle_fields)

lemma set_elapsed_keeps_idle: "idle s \<Longrightarrow> set_elapsed now x s = (Return u, s') \<Longrightarrow> idle s'"
  by (auto simp: set_elapsed_free idle_free idle_fields)

lemma reset_keeps_idle: "idle s \<Longrightarrow> reset now s = (Return r, s') \<Longrightarrow> idle s'"
  by (auto simp: reset_def seq_def ret_def reset_timer_free idle_free idle_fields)

lemma pause_keeps_idle:
  assumes "idle s" and "pause now s = (Return r, s')"
  shows "idle s'"
proof -
  have "s' = snd (pause_timer now s)"
    using assms by (simp add: pause_def seq_def ret_def pause_timer_idle)
  with assms(1) show ?thesis by (simp add: idle_after_pause)
qed

lemma resume_keeps_idle:
  assumes "idle s" and "resume now s = (Return r, s')"
  shows "idle s'"
proof -
  have "s' = snd (resume_timer now s)"
    using assms by (simp add: resume_def seq_def ret_def resume_timer_idle)
  with assms(1) show ?thesis by (simp add: idle_after_resume)
qed

lemma set_remaining_keeps_idle:
  assumes "idle s" and "set_remaining py_int py_float args now s = (Return r, s')"
  shows "idle s'"
proof (cases "missing_both args")
  case True
  with assms show ?thesis by (simp add: set_remaining_missing idle_free)
next
  case False
  show ?thesis
  proof (cases "requested_remaining py_int py_float args")
    case (Inl e)
    with assms False show ?thesis by (simp add: set_remaining_unreadable idle_free)
  next
    case (Inr x)
    show ?thesis
    proof (cases "float_of_int (TOTAL_SECONDS s)")
      case (Inl e)
      with assms False Inr show ?thesis
        by (simp add: set_remaining_total_overflow idle_free)
    next
      case ftot: (Inr f)
      with assms False Inr show ?thesis
        by (auto simp: set_remaining_accepts idle_free idle_fields)
    qed
  qed
qed

lemma set_total_keeps_idle:
  assumes "idle s" and "set_total py_int py_float args t1 t2 s = (Return r, s')"
  shows "idle s'"
proof (cases "missing_both args")
  case True
  with assms show ?thesis by (simp add: set_total_missing)
next
  case False
  show ?thesis
  proof (cases "requested_total py_int py_float args")
    case (Inl e)
    with assms False show ?thesis by (simp add: set_total_unreadable)
  next
    case (Inr n)
    from assms(1) obtain el where el: "now_elapsed t1 s = (Return el, s)"
      using now_elapsed_returns by blast
    show ?thesis
    proof (cases "n \<le> 0")
      case True
      with assms False Inr show ?thesis by (simp add: set_total_not_positive)
    next
      case pos: False
      show ?thesis
      proof (cases "of_int n < el")
        case True
        with assms False Inr pos el show ?thesis
          by (simp add: set_total_blocks)
      next
        case False
        with assms \<open>\<not> missing_both args\<close> Inr pos el show ?thesis
          by (auto simp: set_total_accepts idle_fields)
      qed
    qed
  qed
qed

lemma set_ends_store:
  "\<not> lock_held s \<Longrightarrow>
   with_state_lock (\<lambda>s. (Return (), s\<lparr>NUM_ENDS := n\<rparr>)) s = (Return (), s\<lparr>NUM_ENDS := n\<rparr>)"
  by (simp add: with_state_lock_def)

lemma set_ends_accepts:
  assumes "\<not> lock_held s" and "args ''count'' = Some c" and "c \<noteq> []"
    and "py_int c = Inr n" and "1 \<le> n"
  shows "set_ends py_int args s =
     (Return ([(''ok'', JBool True), (''num_ends'', JInt n)], 200), s\<lparr>NUM_ENDS := n\<rparr>)"
proof -
  have g: "\<not> lock_held (s\<lparr>NUM_ENDS := n\<rparr>)" using assms(1) by simp
  show ?thesis
    using assms(2-5) set_ends_store [OF assms(1), of n] num_ends_free [OF g]
    by (simp add: set_ends_def ret_def try_except_def seq_def lift_def)
qed

lemma set_ends_keeps_idle:
  assumes "idle s" and "set_ends py_int args s = (Return r, s')"
  shows "idle s'"
proof (cases "invalid_ends py_int args")
  case True
  then obtain msg where "set_ends py_int args s = (Return (bad_request msg), s)"
    using set_ends_bad_request by blast
  with assms show ?thesis by simp
next
  case False
  then obtain c n where "args ''count'' = Some c" "c \<noteq> []" "py_int c = Inr n" "1 \<le> n"
    by (auto simp: invalid_ends_def split: option.splits sum.splits)
  with assms show ?thesis
    by (auto simp: set_ends_accepts idle_free idle_fields)
qed

lemma add_time_keeps_idle:
  assumes "idle s" and "add_time t1 t2 s = (Return r, s')"
  shows "idle s'"
proof -
  from assms(1) obtain cur where "now_elapsed t1 s = (Return cur, s)"
    using now_elapsed_returns by blast
  with assms show ?thesis by (auto simp: add_time_idle idle_fields)
qed

lemma subtract_time_keeps_idle:
  assumes "idle s" and "subtract_time t1 t2 s = (Return r, s')"
  shows "idle s'"
proof -
  from assms(1) obtain cur where "now_elapsed t1 s = (Return cur, s)"
    using now_elapsed_returns by blast
  with assms show ?thesis by (auto simp: subtract_time_idle idle_fields)
qed

lemma reachable_idle: "reachable py_int py_float s \<Longrightarrow> idle s"
proof (induction rule: reachable.induct)
  case r_init
  show ?case by (rule initial_idle)
next
  case r_reset
  then show ?case by (blast intro: reset_keeps_idle)
next
  case r_reset_timer
  then show ?case by (blast intro: reset_timer_keeps_idle)
next
  case r_pause
  then show ?case by (blast intro: pause_keeps_idle)
next
  case r_resume
  then show ?case by (blast intro: resume_keeps_idle)
next
  case r_set_elapsed
  then show ?case by (blast intro: set_elapsed_keeps_idle)
next
  case r_set_remaining
  then show ?case by (blast intro: set_remaining_keeps_idle)
next
  case r_set_total
  then show ?case by (blast intro: set_total_keeps_idle)
next
  case r_set_ends
  then show ?case by (blast intro: set_ends_keeps_idle)
next
  case r_add_time
  then show ?case by (blast intro: add_time_keeps_idle)
next
  case r_subtract_time
  then show ?case by (blast intro: subtract_time_keeps_idle)
qed

text \<open>
  In every state reached from the state at load time by calls that returned,
  \<^verbatim>\<open>now_elapsed\<close> returns at every instant, its value is never negative, a later
  reading is never smaller than an earlier one, and while the clock is paused the two
  readings are equal.
\<close>

lemma returned_runs_elapsed:
  assumes "reachable py_int py_float s" and "t \<le> t'"
  shows "\<exists>v v'. now_elapsed t s = (Return v, s) \<and> now_elapsed t' s = (Return v', s)
           \<and> 0 \<le> v \<and> v \<le> v' \<and> (paused s \<longrightarrow> v' = v)"
proof -
  have i: "idle s" using assms(1) by (rule reachable_idle)
  show ?thesis
  proof (cases "pause_epoch s")
    case None
    with assms(2) show ?thesis
      using i by (simp add: now_elapsed_idle idle_def)
  next
    case (Some p)
    then show ?thesis
      using i by (simp add: now_elapsed_idle)
  qed
qed

lemma paused_at_100_reachable:
  "reachable ascii_int ascii_float
     ((initial_state 7200 8 [] [] 0)\<lparr>paused := True, pause_epoch := Some 100\<rparr>)"
proof (rule r_pause)
  show "reachable ascii_int ascii_float (initial_state 7200 8 [] [] 0)"
    by (rule r_init)
  show "pause 100 (initial_state 7200 8 [] [] 0)
          = (Return ([(''ok'', JBool True), (''message'', JStr ''timer paused'')], 200),
             (initial_state 7200 8 [] [] 0)\<lparr>paused := True, pause_epoch := Some 100\<rparr>)"
    by (simp add: pause_def seq_def ret_def paused_at_100)
qed

lemma returned_runs_elapsed_example:
  "reachable ascii_int ascii_float (initial_state 7200 8 [] [] 0)
   \<and> reachable ascii_int ascii_float
        ((initial_state 7200 8 [] [] 0)\<lparr>paused := True, pause_epoch := Some 100\<rparr>)
   \<and> (150::real) \<le> 300
   \<and> fst (now_elapsed 150 (initial_state 7200 8 [] [] 0)) = Return 150
   \<and> fst (now_elapsed 300 (initial_state 7200 8 [] [] 0)) = Return 300
   \<and> (\<exists>v. now_elapsed 150
             ((initial_state 7200 8 [] [] 0)\<lparr>paused := True, pause_epoch := Some 100\<rparr>)
           = (Return v,
              (initial_state 7200 8 [] [] 0)\<lparr>paused := True, pause_epoch := Some 100\<rparr>)
         \<and> now_elapsed 300
             ((initial_state 7200 8 [] [] 0)\<lparr>paused := True, pause_epoch := Some 100\<rparr>)
           = (Return v,
              (initial_state 7200 8 [] [] 0)\<lparr>paused := True, pause_epoch := Some 100\<rparr>)
         \<and> 0 \<le> v)"
proof -
  have h: "(150::real) \<le> 300" by simp
  have r0: "reachable ascii_int ascii_float (initial_state 7200 8 [] [] 0)"
    by (rule r_init)
  have a: "fst (now_elapsed 150 (initial_state 7200 8 [] [] 0)) = Return 150"
          "fst (now_elapsed 300 (initial_state 7200 8 [] [] 0)) = Return 300"
    using initial_idle [of 7200 8 "[]" "[]" 0]
    by (simp_all add: now_elapsed_idle) (simp_all add: initial_state_def)
  have p: "paused ((initial_state 7200 8 [] [] 0)\<lparr>paused := True, pause_epoch := Some 100\<rparr>)"
    by simp
  from returned_runs_elapsed [OF paused_at_100_reachable h] p
       returned_runs_elapsed [OF r0 h] r0 paused_at_100_reachable h a
  show ?thesis by auto
qed

text \<open>
  Claim C9, after a set-total that clamps: the clock has run 7200 seconds and
  \<^verbatim>\<open>/set_total?seconds=3600\<close> arrives. The call never returns and leaves
  \<^verbatim>\<open>state_lock\<close> taken, so in the state it leaves \<^verbatim>\<open>now_elapsed\<close> returns no value
  at any instant \<open>t\<close>.
\<close>

theorem query_never_returns_after_clamping_set_total:
  "fst (set_total ascii_int ascii_float [''seconds'' \<mapsto> ''3600''] 7200 7200
          (initial_state 7200 8 [] [] 0)) = Blocked
   \<and> fst (now_elapsed t
            (snd (set_total ascii_int ascii_float [''seconds'' \<mapsto> ''3600''] 7200 7200
                    (initial_state 7200 8 [] [] 0)))) = Blocked"
proof -
  have el: "now_elapsed 7200 (initial_state 7200 8 [] [] 0)
              = (Return 7200, initial_state 7200 8 [] [] 0)"
    using initial_idle [of 7200 8 "[]" "[]" 0]
    by (simp add: now_elapsed_idle) (simp add: initial_state_def)
  have "set_total ascii_int ascii_float [''seconds'' \<mapsto> ''3600''] 7200 7200
          (initial_state 7200 8 [] [] 0)
        = (Blocked, (initial_state 7200 8 [] [] 0)\<lparr>TOTAL_SECONDS := 3600, lock_held := True\<rparr>)"
    by (rule set_total_blocks [OF initial_idle seconds_present seconds_3600_total _ el]) simp_all
  then show ?thesis by (simp add: now_elapsed_held)
qed

end
